theory Spec2Isabelle
  imports Complex_Main "HOL-Library.Log_Nat" "HOL-Library.Multiset"
begin

section \<open>SmartQuizHub: quiz availability, scoring, sessions, leaderboard, documents\<close>

text \<open>
  A shallow embedding of the student side of the application: the quiz list and the quiz
  session of \<^verbatim>\<open>QuizzesTab\<close>, the ranking of \<^verbatim>\<open>LeaderboardTab\<close> and the unlock rule of
  \<^verbatim>\<open>DocumentsTab\<close>. A JavaScript \<^verbatim>\<open>Date\<close> is its \<^verbatim>\<open>getTime()\<close> value, an integer number
  of milliseconds; identifiers are strings.
\<close>

type_synonym time = int

subsection \<open>Availability of a quiz (\<^verbatim>\<open>fetchQuizzes\<close>)\<close>

datatype status = Upcoming | Active | Ended

text \<open>
  The three helpers are those of the date-fns library, which the component imports:
  \<^verbatim>\<open>isPast(d)\<close> is \<^verbatim>\<open>d < Date.now()\<close>, \<^verbatim>\<open>isAfter(d, c)\<close> is \<^verbatim>\<open>d > c\<close> and
  \<^verbatim>\<open>isBefore(d, c)\<close> is \<^verbatim>\<open>d < c\<close>, all three strict. \<open>isPast\<close> reads the clock itself;
  the value it reads is its first argument here.
\<close>

definition isPast :: "time \<Rightarrow> time \<Rightarrow> bool" where
  "isPast clock d = (d < clock)"

definition isAfter :: "time \<Rightarrow> time \<Rightarrow> bool" where
  "isAfter d c = (d > c)"

definition isBefore :: "time \<Rightarrow> time \<Rightarrow> bool" where
  "isBefore d c = (d < c)"

text \<open>
  \<^verbatim>\<open>let status = 'upcoming';
  if (isPast(endDate)) status = 'ended';
  else if (isAfter(now, startDate) && isBefore(now, endDate)) status = 'active';\<close>

  \<open>now\<close> is the value of \<^verbatim>\<open>new Date()\<close> taken two lines earlier and \<open>clock\<close> the value
  \<open>isPast\<close> reads. \<open>gate\<close> is the status when both reads give the same millisecond.
\<close>

definition quizStatus :: "time \<Rightarrow> time \<Rightarrow> time \<Rightarrow> time \<Rightarrow> status" where
  "quizStatus clock now startDate endDate =
     (if isPast clock endDate then Ended
      else if isAfter now startDate \<and> isBefore now endDate then Active
      else Upcoming)"

definition gate :: "time \<Rightarrow> time \<Rightarrow> time \<Rightarrow> status" where
  "gate now startDate endDate = quizStatus now now startDate endDate"

subsection \<open>Unlocking of documents (\<^verbatim>\<open>fetchDocuments\<close>)\<close>

record quizData =
  q_title :: string
  q_startDate :: time
  q_endDate :: time
  q_durationMinutes :: int

record docData =
  d_title :: string
  d_roomId :: string
  d_quizLinked :: "string option"

text \<open>
  A snapshot of a collection is the list of its documents, each an identifier with its
  data. \<^verbatim>\<open>if (docData.quizLinked)\<close> tests truthiness: a missing field and the empty string
  both fail it. The result is the pair of \<^verbatim>\<open>unlocked\<close> and \<^verbatim>\<open>quizEndDate\<close>.
\<close>

definition documentUnlock ::
  "time \<Rightarrow> (string \<times> quizData) list \<Rightarrow> docData \<Rightarrow> bool \<times> time option" where
  "documentUnlock now quizSnapshot d =
     (case d_quizLinked d of
        None \<Rightarrow> (True, None)
      | Some l \<Rightarrow>
          if l = [] then (True, None)
          else (case find (\<lambda>quiz. fst quiz = l) quizSnapshot of
                  None \<Rightarrow> (True, None)
                | Some linkedQuiz \<Rightarrow>
                    (now > q_endDate (snd linkedQuiz), Some (q_endDate (snd linkedQuiz)))))"

definition unlocked :: "time \<Rightarrow> (string \<times> quizData) list \<Rightarrow> docData \<Rightarrow> bool" where
  "unlocked now quizSnapshot d = fst (documentUnlock now quizSnapshot d)"

subsection \<open>Numbers\<close>

text \<open>
  A JavaScript number is an IEEE 754 double. The doubles that scoring meets are rationals
  of the normal range, so a double is the rational it denotes and an operation is the
  exact operation followed by \<open>fl\<close>, the rounding to the nearest double: 53 significant
  bits, ties to the even significand. \<open>ilog2 x\<close> is the exponent \<open>e\<close> with
  \<open>2\<^sup>e \<le> x < 2\<^sup>e\<^sup>+\<^sup>1\<close>, found from the bit lengths of numerator and denominator.
\<close>

definition pow2 :: "int \<Rightarrow> rat" where
  "pow2 e = (if 0 \<le> e then 2 ^ nat e else 1 / 2 ^ nat (- e))"

definition ilog2 :: "rat \<Rightarrow> int" where
  "ilog2 x = (let (p, q) = quotient_of x; d = bitlen p - bitlen q
              in if pow2 d \<le> x then d else d - 1)"

definition roundTiesToEven :: "rat \<Rightarrow> int" where
  "roundTiesToEven r =
     (let f = \<lfloor>r\<rfloor>; d = r - of_int f
      in if d < 1 / 2 then f else if 1 / 2 < d then f + 1 else if even f then f else f + 1)"

definition fl :: "rat \<Rightarrow> rat" where
  "fl x = (if x = 0 then 0
           else let u = pow2 (ilog2 \<bar>x\<bar> - 52) in of_int (roundTiesToEven (x / u)) * u)"

definition fdiv :: "rat \<Rightarrow> rat \<Rightarrow> rat" where
  "fdiv a b = fl (a / b)"

definition fmul :: "rat \<Rightarrow> rat \<Rightarrow> rat" where
  "fmul a b = fl (a * b)"

text \<open>\<^verbatim>\<open>Math.round\<close>: the nearest integer, a tie going up.\<close>

definition Math_round :: "rat \<Rightarrow> int" where
  "Math_round x = \<lfloor>x + 1 / 2\<rfloor>"

text \<open>A score is what \<^verbatim>\<open>Math.round\<close> returns: an integer, or \<^verbatim>\<open>NaN\<close> (from \<^verbatim>\<open>0 / 0\<close>).\<close>

datatype number = NaN | Num int

text \<open>\<^verbatim>\<open>score >= bound\<close>: false when the score is \<^verbatim>\<open>NaN\<close>.\<close>

definition ge :: "number \<Rightarrow> int \<Rightarrow> bool" where
  "ge x bound = (case x of NaN \<Rightarrow> False | Num v \<Rightarrow> bound \<le> v)"

subsection \<open>Arrays\<close>

text \<open>
  A JavaScript array of numbers is a list of slots; \<open>None\<close> is \<^verbatim>\<open>undefined\<close> (a hole).
  Reading past the end gives \<^verbatim>\<open>undefined\<close>; writing past the end extends the array.
\<close>

definition arrayGet :: "'a option list \<Rightarrow> nat \<Rightarrow> 'a option" where
  "arrayGet xs i = (if i < length xs then xs ! i else None)"

definition arraySet :: "'a option list \<Rightarrow> nat \<Rightarrow> 'a \<Rightarrow> 'a option list" where
  "arraySet xs i v =
     (if i < length xs then xs[i := Some v]
      else xs @ replicate (i - length xs) None @ [Some v])"

subsection \<open>Scoring (\<^verbatim>\<open>calculateScore\<close>, \<^verbatim>\<open>getAnalysis\<close>)\<close>

record question =
  questionText :: string
  options :: "string list"
  correctOption :: int
  explanation :: string

text \<open>
  The \<^verbatim>\<open>forEach\<close> loop of \<^verbatim>\<open>calculateScore\<close>, with its index and its counter:
  \<^verbatim>\<open>if (answers[index] === question.correctOption) correct++\<close>.
\<close>

fun countCorrect :: "question list \<Rightarrow> int option list \<Rightarrow> nat \<Rightarrow> nat \<Rightarrow> nat" where
  "countCorrect [] answers index correct = correct"
| "countCorrect (question # rest) answers index correct =
     countCorrect rest answers (index + 1)
       (if arrayGet answers index = Some (correctOption question) then correct + 1 else correct)"

text \<open>\<^verbatim>\<open>Math.round((correct / quizQuestions.length) * 100)\<close>; \<^verbatim>\<open>0 / 0\<close> is \<^verbatim>\<open>NaN\<close>.\<close>

definition calculateScore :: "question list \<Rightarrow> int option list \<Rightarrow> number" where
  "calculateScore quizQuestions answers =
     (let correct = countCorrect quizQuestions answers 0 0
      in if length quizQuestions = 0 then NaN
         else Num (Math_round
                (fmul (fdiv (of_nat correct) (of_nat (length quizQuestions))) 100)))"

definition getAnalysis :: "number \<Rightarrow> string" where
  "getAnalysis score =
     (if ge score 80 then ''Good''
      else if ge score 60 then ''Fair''
      else ''Needs Improvement'')"

text \<open>
  The claims' count of correct slots: the positions whose slot equals that question's
  correct-option index.
\<close>

definition spec_correctCount :: "question list \<Rightarrow> int option list \<Rightarrow> nat" where
  "spec_correctCount qs slots =
     length (filter (\<lambda>(q, a). a = Some (correctOption q)) (zip qs slots))"

subsection \<open>The store\<close>

text \<open>
  Firestore documents. A submission lives at
  \<^verbatim>\<open>rooms/{room}/quizzes/{quiz}/submissions/{student}\<close> and is read by its path, so the
  submissions are a map from (room, quiz, student). The quizzes and the leaderboard of a
  room are read whole with \<^verbatim>\<open>getDocs\<close>, so each is the list of its documents, an
  identifier with its data, the identifiers distinct. A quiz is created with \<^verbatim>\<open>addDoc\<close>,
  which generates its identifier, and the identifiers it generates all have one length;
  a leaderboard document is written under the identifier of its quiz.
\<close>

record submission =
  s_studentId :: string
  s_answers :: "int option list"
  s_score :: number
  s_analysis :: string
  s_submittedAt :: time

record leaderboardDoc =
  l_studentId :: string
  l_studentName :: string
  l_score :: number
  l_submittedAt :: time

record store =
  quizDocs :: "string \<Rightarrow> (string \<times> quizData) list"
  submissionDocs :: "string \<times> string \<times> string \<Rightarrow> submission option"
  leaderboardDocs :: "string \<Rightarrow> (string \<times> leaderboardDoc) list"

text \<open>
  \<^verbatim>\<open>setDoc(ref, data)\<close> without options: the document is created, or replaced when one
  exists at the path. On a map that is the map update; on a list of documents it is the
  function below. A new document is put last; \<^verbatim>\<open>getDocs\<close> lists by identifier, and the
  theorems about a read hold for every list, whatever its order.
\<close>

fun setDoc :: "string \<Rightarrow> 'a \<Rightarrow> (string \<times> 'a) list \<Rightarrow> (string \<times> 'a) list" where
  "setDoc i v [] = [(i, v)]"
| "setDoc i v (d # ds) = (if fst d = i then (i, v) # ds else d # setDoc i v ds)"

text \<open>A write either succeeds or throws; \<open>storage\<close> says which write of a submit throws.\<close>

datatype storage = WritesOk | SubmissionWriteFails | LeaderboardWriteFails

subsection \<open>The component \<^verbatim>\<open>QuizzesTab\<close>\<close>

record profile =
  user_id :: string
  user_name :: string
  rooms :: "string list"

text \<open>\<^verbatim>\<open>interface Quiz\<close>: an item of the quiz list, as \<^verbatim>\<open>fetchQuizzes\<close> builds it.\<close>

record quiz =
  quiz_id :: string
  quiz_roomId :: string
  quiz_title :: string
  quiz_startDate :: time
  quiz_endDate :: time
  quiz_durationMinutes :: int
  quiz_status :: status
  quiz_submitted :: bool
  quiz_score :: "number option"
  quiz_analysis :: "string option"

text \<open>The \<^verbatim>\<open>useState\<close> cells of a quiz session.\<close>

record session =
  selectedQuiz :: "quiz option"
  quizQuestions :: "question list"
  currentQuestionIndex :: nat
  answers :: "int option list"
  quizStarted :: bool
  timeLeft :: int

text \<open>
  The component: the state of its latest render (\<open>ui\<close>), the cached quiz list, the store,
  and the interval of the countdown effect. A function of a render closes over the state
  of that render, and the interval's callback calls the \<^verbatim>\<open>handleSubmitQuiz\<close> of the
  render in which the effect ran; \<open>interval\<close> is that render's state, \<open>None\<close> when no
  interval is set.
\<close>

record component =
  userProfile :: "profile option"
  ui :: session
  interval :: "session option"
  quizzes :: "quiz list"
  db :: store

text \<open>
  \<^verbatim>\<open>useEffect(() => { if (quizStarted && timeLeft > 0) interval = setInterval(...);
  return () => clearInterval(interval); }, [quizStarted, timeLeft])\<close>:
  after a render the effect is cleaned up and run again only when \<^verbatim>\<open>quizStarted\<close> or
  \<^verbatim>\<open>timeLeft\<close> has changed.
\<close>

definition countdownEffect :: "session \<Rightarrow> session \<Rightarrow> session option \<Rightarrow> session option" where
  "countdownEffect before after running =
     (if quizStarted after = quizStarted before \<and> timeLeft after = timeLeft before then running
      else if quizStarted after \<and> timeLeft after > 0 then Some after
      else None)"

definition render :: "session \<Rightarrow> component \<Rightarrow> component" where
  "render s c = c\<lparr>ui := s, interval := countdownEffect (ui c) s (interval c)\<rparr>"

text \<open>
  \<^verbatim>\<open>startQuiz\<close>. \<open>questionsSnapshot\<close> is what \<^verbatim>\<open>getDocs\<close> gives for the questions of the
  quiz, \<open>None\<close> when it throws (the \<^verbatim>\<open>catch\<close> logs and changes nothing).
\<close>

definition startQuiz :: "quiz \<Rightarrow> question list option \<Rightarrow> component \<Rightarrow> component" where
  "startQuiz quiz questionsSnapshot c =
     (case questionsSnapshot of
        None \<Rightarrow> c
      | Some questions \<Rightarrow>
          render
            \<lparr>selectedQuiz = Some quiz,
             quizQuestions = questions,
             currentQuestionIndex = 0,
             answers = replicate (length questions) (Some (- 1)),
             quizStarted = True,
             timeLeft = quiz_durationMinutes quiz * 60\<rparr> c)"

text \<open>The guard of the Start button in the list: \<^verbatim>\<open>quiz.status === 'active' && !quiz.submitted\<close>.\<close>

definition startOffered :: "quiz \<Rightarrow> bool" where
  "startOffered quiz = (quiz_status quiz = Active \<and> \<not> quiz_submitted quiz)"

definition handleAnswerSelect :: "int \<Rightarrow> component \<Rightarrow> component" where
  "handleAnswerSelect answerIndex c =
     render ((ui c)\<lparr>answers :=
        arraySet (answers (ui c)) (currentQuestionIndex (ui c)) answerIndex\<rparr>) c"

text \<open>
  The Previous button sets \<^verbatim>\<open>Math.max(0, currentQuestionIndex - 1)\<close>; the Next button is
  there only while \<^verbatim>\<open>currentQuestionIndex < quizQuestions.length - 1\<close>.
\<close>

definition previousQuestion :: "component \<Rightarrow> component" where
  "previousQuestion c =
     render ((ui c)\<lparr>currentQuestionIndex := currentQuestionIndex (ui c) - 1\<rparr>) c"

definition nextQuestion :: "component \<Rightarrow> component" where
  "nextQuestion c =
     (if currentQuestionIndex (ui c) + 1 < length (quizQuestions (ui c))
      then render ((ui c)\<lparr>currentQuestionIndex := currentQuestionIndex (ui c) + 1\<rparr>) c
      else c)"

text \<open>
  \<^verbatim>\<open>handleSubmitQuiz\<close> of the render with state \<open>cl\<close>: it reads \<^verbatim>\<open>selectedQuiz\<close>,
  \<^verbatim>\<open>quizQuestions\<close> and \<^verbatim>\<open>answers\<close> of that render, writes to the store, and its state
  setters act on the component as it is now. Both \<^verbatim>\<open>new Date()\<close> are \<open>now\<close>. A write
  that throws leads to the \<^verbatim>\<open>catch\<close>, which logs. On success the quiz list is fetched
  again, without waiting for it: that is the separate step \<open>fetchQuizzes\<close>.
\<close>

definition handleSubmitQuiz :: "storage \<Rightarrow> time \<Rightarrow> session \<Rightarrow> component \<Rightarrow> component" where
  "handleSubmitQuiz io now cl c =
     (case selectedQuiz cl of
        None \<Rightarrow> c
      | Some quiz \<Rightarrow>
         (case userProfile c of
            None \<Rightarrow> c
          | Some me \<Rightarrow>
              let score = calculateScore (quizQuestions cl) (answers cl);
                  analysis = getAnalysis score
              in if io = SubmissionWriteFails then c
                 else
                   let db1 = (db c)\<lparr>submissionDocs := (submissionDocs (db c))
                          ((quiz_roomId quiz, quiz_id quiz, user_id me) \<mapsto>
                             \<lparr>s_studentId = user_id me, s_answers = answers cl,
                              s_score = score, s_analysis = analysis,
                              s_submittedAt = now\<rparr>)\<rparr>
                   in if io = LeaderboardWriteFails then c\<lparr>db := db1\<rparr>
                      else
                        let db2 = db1\<lparr>leaderboardDocs := (leaderboardDocs db1)
                               (quiz_roomId quiz :=
                                  setDoc (quiz_id quiz)
                                    \<lparr>l_studentId = user_id me, l_studentName = user_name me,
                                     l_score = score, l_submittedAt = now\<rparr>
                                    (leaderboardDocs db1 (quiz_roomId quiz)))\<rparr>
                        in render ((ui c)\<lparr>selectedQuiz := None, quizStarted := False,
                                     quizQuestions := [], answers := []\<rparr>)
                             (c\<lparr>db := db2\<rparr>)))"

text \<open>The Submit button: \<^verbatim>\<open>onClick={handleSubmitQuiz}\<close> of the latest render.\<close>

definition submitClick :: "storage \<Rightarrow> time \<Rightarrow> component \<Rightarrow> component" where
  "submitClick io now c = handleSubmitQuiz io now (ui c) c"

text \<open>
  One firing of the interval:
  \<^verbatim>\<open>setTimeLeft((prev) => { if (prev <= 1) { handleSubmitQuiz(); return 0; } return prev - 1; })\<close>,
  where \<^verbatim>\<open>handleSubmitQuiz\<close> is the one the interval closed over.
\<close>

definition tick :: "storage \<Rightarrow> time \<Rightarrow> component \<Rightarrow> component" where
  "tick io now c =
     (case interval c of
        None \<Rightarrow> c
      | Some cl \<Rightarrow>
          if timeLeft (ui c) \<le> 1
          then handleSubmitQuiz io now cl (render ((ui c)\<lparr>timeLeft := 0\<rparr>) c)
          else render ((ui c)\<lparr>timeLeft := timeLeft (ui c) - 1\<rparr>) c)"

text \<open>
  \<^verbatim>\<open>fetchQuizzes\<close>: every quiz of every room of the user, with its status at \<open>now\<close> and
  \<^verbatim>\<open>submitted: submissionDoc.exists()\<close>. \<open>ok\<close> is false when a read throws (the
  \<^verbatim>\<open>catch\<close> logs and the list stays).
\<close>

definition quizView :: "time \<Rightarrow> store \<Rightarrow> profile \<Rightarrow> string \<Rightarrow> string \<times> quizData \<Rightarrow> quiz" where
  "quizView now st me room quizDoc =
     (let submissionDoc = submissionDocs st (room, fst quizDoc, user_id me)
      in \<lparr>quiz_id = fst quizDoc,
          quiz_roomId = room,
          quiz_title = q_title (snd quizDoc),
          quiz_startDate = q_startDate (snd quizDoc),
          quiz_endDate = q_endDate (snd quizDoc),
          quiz_durationMinutes = q_durationMinutes (snd quizDoc),
          quiz_status = gate now (q_startDate (snd quizDoc)) (q_endDate (snd quizDoc)),
          quiz_submitted = (submissionDoc \<noteq> None),
          quiz_score = map_option s_score submissionDoc,
          quiz_analysis = map_option s_analysis submissionDoc\<rparr>)"

definition fetchQuizzes :: "bool \<Rightarrow> time \<Rightarrow> component \<Rightarrow> component" where
  "fetchQuizzes ok now c =
     (case userProfile c of
        None \<Rightarrow> c
      | Some me \<Rightarrow>
          if rooms me = [] \<or> \<not> ok then c
          else c\<lparr>quizzes :=
                 concat (map (\<lambda>room. map (quizView now (db c) me room) (quizDocs (db c) room))
                           (rooms me))\<rparr>)"

subsection \<open>The leaderboard (\<^verbatim>\<open>fetchLeaderboards\<close>)\<close>

record leaderboardEntry =
  e_studentId :: string
  e_studentName :: string
  e_score :: number
  e_submittedAt :: time
  e_rank :: nat

definition startsWith :: "string \<Rightarrow> string \<Rightarrow> bool" where
  "startsWith s p = (take (length p) s = p)"

text \<open>
  The comparator \<^verbatim>\<open>(a, b) => b.score - a.score\<close>; a difference with \<^verbatim>\<open>NaN\<close> is \<^verbatim>\<open>NaN\<close>,
  which \<^verbatim>\<open>sort\<close> takes as 0.
\<close>

definition byScoreDesc :: "leaderboardDoc \<Rightarrow> leaderboardDoc \<Rightarrow> int" where
  "byScoreDesc a b =
     (case l_score b of
        NaN \<Rightarrow> 0
      | Num y \<Rightarrow> (case l_score a of NaN \<Rightarrow> 0 | Num x \<Rightarrow> y - x))"

text \<open>
  \<^verbatim>\<open>Array.prototype.sort\<close> is stable: elements that compare equal keep their order. For
  a consistent comparator every stable sort returns the same list; this one inserts
  each element before the first one it does not come after.
\<close>

fun insertBy :: "('a \<Rightarrow> 'a \<Rightarrow> int) \<Rightarrow> 'a \<Rightarrow> 'a list \<Rightarrow> 'a list" where
  "insertBy cmp x [] = [x]"
| "insertBy cmp x (y # ys) = (if cmp x y \<le> 0 then x # y # ys else y # insertBy cmp x ys)"

fun sortBy :: "('a \<Rightarrow> 'a \<Rightarrow> int) \<Rightarrow> 'a list \<Rightarrow> 'a list" where
  "sortBy cmp [] = []"
| "sortBy cmp (x # xs) = insertBy cmp x (sortBy cmp xs)"

definition withRank :: "nat \<times> leaderboardDoc \<Rightarrow> leaderboardEntry" where
  "withRank p =
     \<lparr>e_studentId = l_studentId (snd p), e_studentName = l_studentName (snd p),
      e_score = l_score (snd p), e_submittedAt = l_submittedAt (snd p),
      e_rank = fst p + 1\<rparr>"

text \<open>
  \<^verbatim>\<open>leaderboardSnapshot.docs.filter(doc => doc.id.startsWith(quizDoc.id)).map(...)
  .sort((a, b) => b.score - a.score).map((entry, index) => ({...entry, rank: index + 1}))\<close>
\<close>

definition quizEntries :: "string \<Rightarrow> (string \<times> leaderboardDoc) list \<Rightarrow> leaderboardDoc list" where
  "quizEntries quizId leaderboardSnapshot =
     map snd (filter (\<lambda>d. startsWith (fst d) quizId) leaderboardSnapshot)"

definition rankEntries :: "leaderboardDoc list \<Rightarrow> leaderboardEntry list" where
  "rankEntries es = map withRank (enumerate 0 (sortBy byScoreDesc es))"

definition leaderboardEntries ::
  "string \<Rightarrow> (string \<times> leaderboardDoc) list \<Rightarrow> leaderboardEntry list" where
  "leaderboardEntries quizId leaderboardSnapshot =
     rankEntries (quizEntries quizId leaderboardSnapshot)"



subsection \<open>Example data\<close>

definition example_question :: question where
  "example_question =
     \<lparr>questionText = ''Q'', options = [''a'', ''b'', ''c'', ''d''], correctOption = 0,
      explanation = ''E''\<rparr>"




text \<open>
  A room \<open>r1\<close> with the quizzes \<open>q1\<close> and \<open>q1-b\<close>, each open from 0 to 100000 for one
  minute, two students, an empty store, and the component as it is mounted: the initial
  values of its \<^verbatim>\<open>useState\<close> cells.
\<close>

definition alice :: profile where
  "alice = \<lparr>user_id = ''u1'', user_name = ''Alice'', rooms = [''r1'']\<rparr>"

definition bob :: profile where
  "bob = \<lparr>user_id = ''u2'', user_name = ''Bob'', rooms = [''r1'']\<rparr>"

definition quizOne :: quizData where
  "quizOne = \<lparr>q_title = ''Quiz'', q_startDate = 0, q_endDate = 100000, q_durationMinutes = 1\<rparr>"

definition store0 :: store where
  "store0 =
     \<lparr>quizDocs = (\<lambda>room. if room = ''r1'' then [(''q1'', quizOne), (''q1-b'', quizOne)] else []),
      submissionDocs = (\<lambda>path. None),
      leaderboardDocs = (\<lambda>room. [])\<rparr>"

definition initialSession :: session where
  "initialSession =
     \<lparr>selectedQuiz = None, quizQuestions = [], currentQuestionIndex = 0, answers = [],
      quizStarted = False, timeLeft = 0\<rparr>"

definition mounted :: "profile \<Rightarrow> store \<Rightarrow> component" where
  "mounted me st =
     \<lparr>userProfile = Some me, ui = initialSession, interval = None, quizzes = [], db = st\<rparr>"

text \<open>The list item of quiz \<open>q1\<close> for a student at time 50000.\<close>

definition itemOne :: "profile \<Rightarrow> quiz" where
  "itemOne me = quizView 50000 store0 me ''r1'' (''q1'', quizOne)"

text \<open>
  Alice starts quiz \<open>q1\<close>, which has one question. \<open>lastSecond\<close>: 59 firings of the
  interval later. \<open>firstAttempt\<close>: she selects option 0, the correct one, and submits, and
  the leaderboard write throws. \<open>aliceDone\<close>: the same with both writes succeeding.
\<close>

definition started :: component where
  "started =
     startQuiz (itemOne alice) (Some [example_question])
       (fetchQuizzes True 50000 (mounted alice store0))"

definition lastSecond :: component where
  "lastSecond = (tick WritesOk 51000 ^^ 59) started"

definition firstAttempt :: component where
  "firstAttempt = submitClick LeaderboardWriteFails 60000 (handleAnswerSelect 0 started)"

definition aliceDone :: component where
  "aliceDone = submitClick WritesOk 60000 (handleAnswerSelect 0 started)"

section \<open>Theorems\<close>

subsection \<open>Availability\<close>

text \<open>
  C2 (as the claim states it, refuted). The claim has \<open>start \<le> now < end\<close> give active and
  \<open>now \<ge> end\<close> give ended. With start 50 and end 100 the code answers upcoming both at
  \<open>now = start\<close> and at \<open>now = end\<close>: every comparison it makes is strict.
\<close>

theorem gate_boundary_counterexample:
  "\<not> ((50::int) \<le> 50 \<and> (50::int) < 100 \<longrightarrow> gate 50 50 100 = Active)
   \<and> gate 50 50 100 = Upcoming
   \<and> \<not> ((100::int) \<ge> 100 \<longrightarrow> gate 100 50 100 = Ended)
   \<and> gate 100 50 100 = Upcoming"
  by (simp add: gate_def quizStatus_def isPast_def isAfter_def isBefore_def)

text \<open>
  C2 (amended). For a quiz with \<open>start < end\<close> the status is upcoming when
  \<open>now < start\<close> and also when \<open>now = start\<close>, active when \<open>start < now < end\<close>, and ended
  when \<open>end < now\<close>. Nothing is stated for \<open>now = end\<close>.
\<close>

theorem gate_strict:
  assumes "startDate < endDate"
  shows "(now < startDate \<longrightarrow> gate now startDate endDate = Upcoming)
       \<and> (now = startDate \<longrightarrow> gate now startDate endDate = Upcoming)
       \<and> (startDate < now \<and> now < endDate \<longrightarrow> gate now startDate endDate = Active)
       \<and> (endDate < now \<longrightarrow> gate now startDate endDate = Ended)"
  using assms by (auto simp: gate_def quizStatus_def isPast_def isAfter_def isBefore_def)

theorem gate_strict_witness:
  "(50::int) < 100 \<and> gate 40 50 100 = Upcoming \<and> gate 50 50 100 = Upcoming
   \<and> gate 75 50 100 = Active \<and> gate 101 50 100 = Ended"
  using gate_strict [of 50 100 40] gate_strict [of 50 100 50]
    gate_strict [of 50 100 75] gate_strict [of 50 100 101]
  by simp

subsection \<open>Rounding to a double\<close>

text \<open>
  \<open>ilog2\<close> finds the binade, rounding to the nearest integer is off by at most a half, and
  so \<open>fl\<close> has a relative error of at most \<open>2\<^sup>-\<^sup>5\<^sup>3\<close>.
\<close>

lemma pow2_powi: "pow2 e = 2 powi e"
  by (simp add: pow2_def power_int_def inverse_eq_divide power_one_over)

lemma pow2_pos: "0 < pow2 e"
  by (simp add: pow2_powi)

lemma ilog2_lower:
  assumes "0 < x"
  shows "pow2 (ilog2 x) \<le> x"
proof -
  obtain p q where pq: "quotient_of x = (p, q)" by (cases "quotient_of x")
  have q: "0 < q" using pq by (rule quotient_of_denom_pos)
  have x: "x = of_int p / of_int q" using pq by (rule quotient_of_div)
  have p: "0 < p" using assms q x by (simp add: zero_less_divide_iff)
  let ?d = "bitlen p - bitlen q"
  have lo: "(2::rat) ^ nat (bitlen p - 1) \<le> of_int p"
  proof -
    have "(2::int) ^ nat (bitlen p - 1) \<le> p" using bitlen_bounds [OF p] by simp
    then have "of_int ((2::int) ^ nat (bitlen p - 1)) \<le> (of_int p :: rat)" by (simp only: of_int_le_iff)
    then show ?thesis by simp
  qed
  have hi: "of_int q < (2::rat) ^ nat (bitlen q)"
  proof -
    have "q < (2::int) ^ nat (bitlen q)" using bitlen_bounds [OF q] by simp
    then have "(of_int q :: rat) < of_int ((2::int) ^ nat (bitlen q))" by (simp only: of_int_less_iff)
    then show ?thesis by simp
  qed
  have bp: "1 \<le> bitlen p" using p bitlen_eq_zero_iff [of p] bitlen_nonneg [of p] by linarith
  have bq: "0 \<le> bitlen q" by (rule bitlen_nonneg)
  have "pow2 (?d - 1) \<le> x"
  proof -
    have "pow2 (?d - 1) = 2 powi (bitlen p - 1) / 2 powi (bitlen q)"
      by (simp add: pow2_powi power_int_diff)
    also have "\<dots> = 2 ^ nat (bitlen p - 1) / 2 ^ nat (bitlen q)"
      using bp bq by (simp add: power_int_def)
    also have "\<dots> \<le> of_int p / 2 ^ nat (bitlen q)"
      using lo by (simp add: divide_right_mono)
    also have "\<dots> \<le> of_int p / of_int q"
      using hi p q by (simp add: frac_le)
    finally show ?thesis using x by simp
  qed
  then show ?thesis
    using pq by (simp add: ilog2_def Let_def)
qed

lemma ilog2_upper:
  assumes "0 < x"
  shows "x < pow2 (ilog2 x + 1)"
proof -
  obtain p q where pq: "quotient_of x = (p, q)" by (cases "quotient_of x")
  have q: "0 < q" using pq by (rule quotient_of_denom_pos)
  have x: "x = of_int p / of_int q" using pq by (rule quotient_of_div)
  have p: "0 < p" using assms q x by (simp add: zero_less_divide_iff)
  let ?d = "bitlen p - bitlen q"
  have hi: "of_int p < (2::rat) ^ nat (bitlen p)"
  proof -
    have "p < (2::int) ^ nat (bitlen p)" using bitlen_bounds [OF p] by simp
    then have "(of_int p :: rat) < of_int ((2::int) ^ nat (bitlen p))" by (simp only: of_int_less_iff)
    then show ?thesis by simp
  qed
  have lo: "(2::rat) ^ nat (bitlen q - 1) \<le> of_int q"
  proof -
    have "(2::int) ^ nat (bitlen q - 1) \<le> q" using bitlen_bounds [OF q] by simp
    then have "of_int ((2::int) ^ nat (bitlen q - 1)) \<le> (of_int q :: rat)" by (simp only: of_int_le_iff)
    then show ?thesis by simp
  qed
  have bq: "1 \<le> bitlen q" using q bitlen_eq_zero_iff [of q] bitlen_nonneg [of q] by linarith
  have bp: "0 \<le> bitlen p" by (rule bitlen_nonneg)
  have "x < pow2 (?d + 1)"
  proof -
    have "x = of_int p / of_int q" by (rule x)
    also have "\<dots> < 2 ^ nat (bitlen p) / of_int q"
      using hi q by (simp add: divide_strict_right_mono)
    also have "\<dots> \<le> 2 ^ nat (bitlen p) / 2 ^ nat (bitlen q - 1)"
      using lo by (simp add: frac_le)
    also have "\<dots> = 2 powi (bitlen p) / 2 powi (bitlen q - 1)"
      using bp bq by (simp add: power_int_def)
    also have "\<dots> = pow2 (?d + 1)"
      by (simp add: pow2_powi power_int_diff power_int_add)
    finally show ?thesis .
  qed
  moreover have "\<not> pow2 ?d \<le> x \<Longrightarrow> x < pow2 ?d" by simp
  ultimately show ?thesis
    using pq by (simp add: ilog2_def Let_def)
qed

lemma roundTiesToEven_error: "\<bar>of_int (roundTiesToEven r) - r\<bar> \<le> 1/2"
proof -
  have "of_int \<lfloor>r\<rfloor> \<le> r" "r < of_int \<lfloor>r\<rfloor> + 1" by linarith+
  then show ?thesis
    by (auto simp: roundTiesToEven_def Let_def abs_le_iff)
qed

lemma fl_error:
  assumes "0 < x"
  shows "\<bar>fl x - x\<bar> \<le> x / 2 ^ 53"
proof -
  define u where "u = pow2 (ilog2 x - 52)"
  have u: "0 < u" by (simp add: u_def pow2_pos)
  have ue: "u = pow2 (ilog2 x) / 2 ^ 52"
    by (simp add: u_def pow2_powi power_int_diff)
  have "fl x = of_int (roundTiesToEven (x / u)) * u"
    using assms by (simp add: fl_def u_def Let_def)
  then have "fl x - x = (of_int (roundTiesToEven (x / u)) - x / u) * u"
    using u by (simp add: algebra_simps)
  then have "\<bar>fl x - x\<bar> = \<bar>of_int (roundTiesToEven (x / u)) - x / u\<bar> * u"
    using u by (simp add: abs_mult)
  also have "\<dots> \<le> 1/2 * u"
    using roundTiesToEven_error [of "x / u"] u by (intro mult_right_mono) simp_all
  also have "\<dots> = pow2 (ilog2 x) / 2 ^ 53"
    by (simp add: ue)
  also have "\<dots> \<le> x / 2 ^ 53"
    using ilog2_lower [OF assms] by (simp add: divide_right_mono)
  finally show ?thesis .
qed


lemma fl_zero: "fl 0 = 0" by (simp add: fl_def)

lemma score_core:
  fixes c n :: nat
  assumes c: "c \<le> n" and n0: "0 < n" and n: "n < 2 ^ 32"
  defines "k \<equiv> Math_round (fl (fl (of_nat c / of_nat n) * 100))"
  shows "\<bar>2 * int n * k - 200 * int c\<bar> \<le> int n"
proof (cases "c = 0")
  case True
  have "\<lfloor>1 / 2 :: rat\<rfloor> = 0" by (rule floor_unique) simp_all
  with True show ?thesis by (simp add: k_def fl_zero Math_round_def)
next
  case False
  define q :: rat where "q = of_nat c / of_nat n"
  define y where "y = fl q"
  define w where "w = fl (y * 100)"
  define \<epsilon> :: rat where "\<epsilon> = 1 / 2 ^ 53"
  have eps: "0 < \<epsilon>" "\<epsilon> < 1" "100 * \<epsilon> \<le> 1" by (simp_all add: \<epsilon>_def)
  have q0: "0 < q" using False n0 by (simp add: q_def)
  have q1: "q \<le> 1" using c n0 by (simp add: q_def)
  have e1: "\<bar>y - q\<bar> \<le> q * \<epsilon>"
    using fl_error [OF q0] by (simp add: y_def \<epsilon>_def)
  have qe: "q * \<epsilon> < q" using q0 eps by simp
  have qe': "q * \<epsilon> \<le> \<epsilon>" using q1 eps by simp
  have y0: "0 < y" using e1 qe by linarith
  have y1: "y \<le> 1 + \<epsilon>" using e1 qe' q1 by linarith
  have e2: "\<bar>w - y * 100\<bar> \<le> (y * 100) * \<epsilon>"
    using fl_error [of "y * 100"] y0 by (simp add: w_def \<epsilon>_def)
  have "(y * 100) * \<epsilon> \<le> ((1 + \<epsilon>) * 100) * \<epsilon>"
    using y1 eps by (intro mult_right_mono) simp_all
  also have "\<dots> = 100 * \<epsilon> + (100 * \<epsilon>) * \<epsilon>" by (simp add: algebra_simps)
  also have "\<dots> \<le> 100 * \<epsilon> + 1 * \<epsilon>"
    using eps by (intro add_left_mono mult_right_mono) simp_all
  finally have ye: "(y * 100) * \<epsilon> \<le> 101 * \<epsilon>" by simp
  have e3: "\<bar>w - 100 * q\<bar> \<le> 201 * \<epsilon>"
    using e1 e2 ye qe' by linarith
  have kw: "of_int k \<le> w + 1/2" "w + 1/2 < of_int k + 1"
    unfolding k_def Math_round_def w_def y_def q_def by linarith+
  have e4: "\<bar>of_int k - 100 * q\<bar> \<le> 1/2 + 201 * \<epsilon>"
    using e3 kw by linarith
  have nq: "of_nat n * q = of_nat c" using n0 by (simp add: q_def)
  have "rat_of_int (2 * int n * k - 200 * int c) = 2 * of_nat n * (of_int k - 100 * q)"
    using nq by (simp add: algebra_simps)
  then have "\<bar>rat_of_int (2 * int n * k - 200 * int c)\<bar> = 2 * of_nat n * \<bar>of_int k - 100 * q\<bar>"
    by (simp add: abs_mult)
  also have "\<dots> \<le> 2 * of_nat n * (1/2 + 201 * \<epsilon>)"
    using e4 by (intro mult_left_mono) simp_all
  also have "\<dots> = of_nat n + 402 * of_nat n * \<epsilon>"
    by (simp add: algebra_simps)
  also have "\<dots> < of_nat n + 1"
  proof -
    have "rat_of_nat n < 2 ^ 32" using n by (metis of_nat_less_iff of_nat_numeral of_nat_power)
    then show ?thesis by (simp add: \<epsilon>_def)
  qed
  finally have "\<bar>rat_of_int (2 * int n * k - 200 * int c)\<bar> < rat_of_int (int n + 1)"
    by simp
  then have "rat_of_int \<bar>2 * int n * k - 200 * int c\<bar> < rat_of_int (int n + 1)"
    by simp
  then have "\<bar>2 * int n * k - 200 * int c\<bar> < int n + 1"
    by (simp only: of_int_less_iff)
  then show ?thesis by simp
qed


subsection \<open>Scoring\<close>

lemma countCorrect_zip:
  "countCorrect qs slots i c =
     c + length (filter (\<lambda>(q, a). a = Some (correctOption q)) (zip qs (drop i slots)))"
proof (induction qs arbitrary: i c)
  case Nil
  then show ?case by simp
next
  case (Cons q qs)
  show ?case
  proof (cases "i < length slots")
    case True
    then have d: "drop i slots = slots ! i # drop (Suc i) slots"
      by (simp add: Cons_nth_drop_Suc)
    show ?thesis using True by (simp add: Cons.IH d arrayGet_def)
  next
    case False
    then show ?thesis by (simp add: Cons.IH arrayGet_def)
  qed
qed

lemma countCorrect_spec: "countCorrect qs slots 0 0 = spec_correctCount qs slots"
  by (simp add: countCorrect_zip spec_correctCount_def)

lemma spec_correctCount_le: "spec_correctCount qs slots \<le> length qs"
proof -
  have "spec_correctCount qs slots \<le> length (zip qs slots)"
    unfolding spec_correctCount_def by (rule length_filter_le)
  then show ?thesis by simp
qed

lemma calculateScore_eq:
  "qs \<noteq> [] \<Longrightarrow>
     calculateScore qs slots =
       Num (Math_round (fl (fl (of_nat (spec_correctCount qs slots) / of_nat (length qs)) * 100)))"
  by (simp add: calculateScore_def countCorrect_spec fmul_def fdiv_def)


text \<open>
  C4 (as the claim states it, refuted). A quiz of 40 questions with 23 correct slots has
  \<open>100 \<times> 23 / 40 = 57.5\<close>, which rounds to 58 both half-up and half-to-even. The code
  returns 57: the double nearest to \<open>23 / 40\<close> lies below it, and its product with 100
  rounds to the double just below 57.5.
\<close>

theorem calculateScore_round_counterexample:
  "length (replicate 40 example_question) = 40
   \<and> length (replicate 23 (Some 0) @ replicate 17 (Some (- 1)) :: int option list) = 40
   \<and> spec_correctCount (replicate 40 example_question)
        (replicate 23 (Some 0) @ replicate 17 (Some (- 1))) = 23
   \<and> calculateScore (replicate 40 example_question)
        (replicate 23 (Some 0) @ replicate 17 (Some (- 1))) = Num 57
   \<and> round (100 * 23 / 40 :: rat) = 58
   \<and> roundTiesToEven (100 * 23 / 40) = 58"
  by code_simp

text \<open>
  C4 (amended). For a question list of length \<open>n\<close> with \<open>1 \<le> n < 2\<^sup>3\<^sup>2\<close> (the bound of a
  JavaScript array) and an answer array of the same length, with \<open>c\<close> the number of slots
  equal to their question's correct-option index, the scorer returns an integer \<open>k\<close> in
  \<open>[0, 100]\<close> that is a nearest integer to \<open>100 c / n\<close>: \<open>|k - 100 c / n| \<le> 1/2\<close>. Unless
  \<open>100 c / n\<close> lies exactly halfway between two integers, \<open>k\<close> is therefore the rounded
  value; at a halfway point it is one of the two neighbours. The scorer is a function of
  questions and answers, so scoring twice gives the same result.
\<close>

theorem calculateScore_nearest:
  assumes "1 \<le> length qs" and "length slots = length qs" and "length qs < 2 ^ 32"
  shows "\<exists>k. calculateScore qs slots = Num k \<and> 0 \<le> k \<and> k \<le> 100
    \<and> \<bar>of_int k - 100 * rat_of_nat (spec_correctCount qs slots) / of_nat (length qs)\<bar> \<le> 1 / 2
    \<and> (frac (100 * rat_of_nat (spec_correctCount qs slots) / of_nat (length qs)) \<noteq> 1 / 2
        \<longrightarrow> k = round (100 * rat_of_nat (spec_correctCount qs slots) / of_nat (length qs)))"
proof -
  define c where "c = spec_correctCount qs slots"
  define n where "n = length qs"
  define k where "k = Math_round (fl (fl (of_nat c / of_nat n) * 100))"
  define r :: rat where "r = 100 * of_nat c / of_nat n"
  have n0: "0 < n" using assms(1) unfolding n_def by linarith
  have cn: "c \<le> n" unfolding n_def c_def by (rule spec_correctCount_le)
  have n32: "n < 2 ^ 32" using assms(3) unfolding n_def .
  have ne: "qs \<noteq> []" using n0 unfolding n_def by simp
  have sc: "calculateScore qs slots = Num k"
    using calculateScore_eq [OF ne] by (simp add: k_def c_def n_def)
  have core: "\<bar>2 * int n * k - 200 * int c\<bar> \<le> int n"
    unfolding k_def by (rule score_core [OF cn n0 n32])
  have nr: "of_nat n * r = 100 * of_nat c" using n0 by (simp add: r_def)
  have "2 * rat_of_nat n * \<bar>of_int k - r\<bar> = \<bar>2 * rat_of_nat n * (of_int k - r)\<bar>"
    by (simp add: abs_mult)
  also have "2 * rat_of_nat n * (of_int k - r) = of_int (2 * int n * k - 200 * int c)"
    using nr by (simp add: algebra_simps)
  also have "\<bar>rat_of_int (2 * int n * k - 200 * int c)\<bar>
      = of_int \<bar>2 * int n * k - 200 * int c\<bar>"
    by (simp only: of_int_abs)
  also have "\<dots> \<le> of_int (int n)" using core by (simp only: of_int_le_iff)
  finally have "2 * rat_of_nat n * \<bar>of_int k - r\<bar> \<le> rat_of_nat n * 1" by simp
  then have "rat_of_nat n * (2 * \<bar>of_int k - r\<bar>) \<le> rat_of_nat n * 1" by (simp add: mult.assoc mult.left_commute)
  then have "2 * \<bar>of_int k - r\<bar> \<le> 1" using n0 by (simp only: mult_le_cancel_left_pos of_nat_0_less_iff)
  then have near: "\<bar>of_int k - r\<bar> \<le> 1 / 2" by simp
  have r0: "0 \<le> r" by (simp add: r_def)
  have r100: "r \<le> 100"
  proof -
    have "rat_of_nat c \<le> rat_of_nat n" using cn by simp
    then have "rat_of_nat c / rat_of_nat n \<le> 1" using n0 by (simp add: divide_le_eq_1)
    then show ?thesis by (simp add: r_def)
  qed
  have k0: "0 \<le> k" using near r0 by linarith
  have k100: "k \<le> 100" using near r100 by linarith
  have rnd: "k = round r" if "frac r \<noteq> 1 / 2"
  proof -
    have "r - of_int k \<noteq> 1 / 2"
    proof
      assume h: "r - of_int k = 1 / 2"
      then have "r = of_int k + 1 / 2" by simp
      then have "frac r = 1 / 2" by (simp add: frac_unique_iff)
      with that show False by simp
    qed
    with near have "of_int k \<le> r + 1 / 2" "r + 1 / 2 < of_int k + 1" by linarith+
    then have "\<lfloor>r + 1 / 2\<rfloor> = k" by (intro floor_unique) simp_all
    then show ?thesis by (simp add: round_def)
  qed
  show ?thesis
    using sc k0 k100 near rnd unfolding r_def c_def n_def by blast
qed


theorem calculateScore_nearest_witness:
  "1 \<le> length (replicate 4 example_question)
   \<and> length [Some 0, Some 0, Some 2, Some (0 :: int)] = length (replicate 4 example_question)
   \<and> length (replicate 4 example_question) < 2 ^ 32
   \<and> frac (100 * rat_of_nat (spec_correctCount (replicate 4 example_question)
               [Some 0, Some 0, Some 2, Some 0])
             / of_nat (length (replicate 4 example_question))) \<noteq> 1 / 2
   \<and> calculateScore (replicate 4 example_question) [Some 0, Some 0, Some 2, Some 0] = Num 75"
proof -
  let ?qs = "replicate 4 example_question"
  let ?sl = "[Some 0, Some 0, Some 2, Some (0 :: int)]"
  have h1: "1 \<le> length ?qs" and h2: "length ?sl = length ?qs" and h3: "length ?qs < 2 ^ 32"
    by simp_all
  have f: "frac (100 * rat_of_nat (spec_correctCount ?qs ?sl) / of_nat (length ?qs)) \<noteq> 1 / 2"
    by code_simp
  have r: "round (100 * rat_of_nat (spec_correctCount ?qs ?sl) / of_nat (length ?qs)) = 75"
    by code_simp
  from calculateScore_nearest [OF h1 h2 h3] f r
  have "calculateScore ?qs ?sl = Num 75" by auto
  with h1 h2 h3 f show ?thesis by blast
qed

text \<open>
  C5. For an integer score the bucket is Good exactly from 80 up, Fair exactly from 60 to
  79, and Needs Improvement exactly below 60; a quiz of 10 questions with 7 correct slots
  scores 70 and its bucket is Fair.
\<close>

theorem getAnalysis_buckets:
  "(getAnalysis (Num p) = ''Good'' \<longleftrightarrow> 80 \<le> p)
   \<and> (getAnalysis (Num p) = ''Fair'' \<longleftrightarrow> 60 \<le> p \<and> p < 80)
   \<and> (getAnalysis (Num p) = ''Needs Improvement'' \<longleftrightarrow> p < 60)
   \<and> (length qs = 10 \<and> spec_correctCount qs slots = 7
        \<longrightarrow> calculateScore qs slots = Num 70
          \<and> getAnalysis (calculateScore qs slots) = ''Fair'')"
proof -
  have b: "(getAnalysis (Num p) = ''Good'' \<longleftrightarrow> 80 \<le> p)
     \<and> (getAnalysis (Num p) = ''Fair'' \<longleftrightarrow> 60 \<le> p \<and> p < 80)
     \<and> (getAnalysis (Num p) = ''Needs Improvement'' \<longleftrightarrow> p < 60)"
    by (auto simp: getAnalysis_def ge_def)
  have seventy: "Math_round (fl (fl (of_nat 7 / of_nat 10) * 100)) = 70"
    by code_simp
  have e: "calculateScore qs slots = Num 70"
    if "length qs = 10" and "spec_correctCount qs slots = 7"
  proof -
    from that(1) have "qs \<noteq> []" by auto
    from calculateScore_eq [OF this] that seventy show ?thesis by simp
  qed
  have "getAnalysis (Num 70) = ''Fair''" by (simp add: getAnalysis_def ge_def)
  with b e show ?thesis by simp
qed

theorem getAnalysis_buckets_witness:
  "length (replicate 10 example_question) = 10
   \<and> spec_correctCount (replicate 10 example_question)
        (replicate 7 (Some 0) @ replicate 3 (Some (- 1))) = 7
   \<and> calculateScore (replicate 10 example_question)
        (replicate 7 (Some 0) @ replicate 3 (Some (- 1))) = Num 70
   \<and> getAnalysis (calculateScore (replicate 10 example_question)
        (replicate 7 (Some 0) @ replicate 3 (Some (- 1)))) = ''Fair''
   \<and> getAnalysis (Num 85) = ''Good'' \<and> getAnalysis (Num 59) = ''Needs Improvement''"
proof -
  let ?qs = "replicate 10 example_question"
  let ?sl = "replicate 7 (Some 0) @ replicate 3 (Some (- 1)) :: int option list"
  have h: "length ?qs = 10 \<and> spec_correctCount ?qs ?sl = 7" by code_simp
  show ?thesis
    using h getAnalysis_buckets [of 85 ?qs ?sl] getAnalysis_buckets [of 59 ?qs ?sl]
    by simp
qed

subsection \<open>Leaderboard\<close>







lemma length_sortBy: "length (sortBy cmp xs) = length xs"
proof -
  have "length (insertBy cmp x ys) = Suc (length ys)" for x and ys :: "'a list"
    by (induction ys) simp_all
  then show ?thesis by (induction xs) simp_all
qed







subsection \<open>Submitting\<close>

text \<open>
  C1 (as the claim states it, refuted). Alice's first submit stores the score 100 and then
  fails on the leaderboard write, so the session stays. She selects option 1 and submits
  again: the second invocation does not fail, and the stored score is now 0.
\<close>

theorem submit_overwrites_counterexample:
  "map_option s_score (submissionDocs (db firstAttempt) (''r1'', ''q1'', ''u1'')) = Some (Num 100)
   \<and> map_option s_score
        (submissionDocs (db (submitClick WritesOk 61000 (handleAnswerSelect 1 firstAttempt)))
           (''r1'', ''q1'', ''u1'')) = Some (Num 0)"
  by code_simp

text \<open>
  C1 (amended). Whenever the submit operation reaches its submission write and the write
  does not throw, the document at the path of (room, quiz, student) holds the newly
  computed record afterwards, whatever was stored there before, and no other submission
  document changes: a second invocation creates no second Submission for the pair, but
  the write is an unconditional set that replaces the stored score and does not fail on
  a duplicate.
\<close>

theorem submit_is_unconditional_set:
  assumes "selectedQuiz cl = Some quiz" and "userProfile c = Some me"
    and "io \<noteq> SubmissionWriteFails"
  shows "submissionDocs (db (handleSubmitQuiz io now cl c))
           (quiz_roomId quiz, quiz_id quiz, user_id me)
         = Some \<lparr>s_studentId = user_id me, s_answers = answers cl,
                 s_score = calculateScore (quizQuestions cl) (answers cl),
                 s_analysis = getAnalysis (calculateScore (quizQuestions cl) (answers cl)),
                 s_submittedAt = now\<rparr>
     \<and> (\<forall>path. path \<noteq> (quiz_roomId quiz, quiz_id quiz, user_id me)
           \<longrightarrow> submissionDocs (db (handleSubmitQuiz io now cl c)) path
               = submissionDocs (db c) path)"
  using assms by (simp add: handleSubmitQuiz_def Let_def render_def)

theorem submit_is_unconditional_set_witness:
  "selectedQuiz (ui (handleAnswerSelect 1 firstAttempt)) = Some (itemOne alice)
   \<and> userProfile (handleAnswerSelect 1 firstAttempt) = Some alice
   \<and> WritesOk \<noteq> SubmissionWriteFails
   \<and> map_option s_score
        (submissionDocs (db (handleAnswerSelect 1 firstAttempt)) (''r1'', ''q1'', ''u1''))
       = Some (Num 100)
   \<and> map_option s_score
        (submissionDocs
           (db (handleSubmitQuiz WritesOk 61000 (ui (handleAnswerSelect 1 firstAttempt))
                  (handleAnswerSelect 1 firstAttempt)))
           (quiz_roomId (itemOne alice), quiz_id (itemOne alice), user_id alice))
       = Some (calculateScore [example_question] [Some 1])
   \<and> submissionDocs
        (db (handleSubmitQuiz WritesOk 61000 (ui (handleAnswerSelect 1 firstAttempt))
               (handleAnswerSelect 1 firstAttempt)))
        (''r1'', ''q1-b'', ''u1'')
       = submissionDocs (db (handleAnswerSelect 1 firstAttempt)) (''r1'', ''q1-b'', ''u1'')"
proof -
  let ?c = "handleAnswerSelect 1 firstAttempt"
  have h1: "selectedQuiz (ui ?c) = Some (itemOne alice)" by code_simp
  have h2: "userProfile ?c = Some alice" by code_simp
  have h3: "WritesOk \<noteq> SubmissionWriteFails" by simp
  have q: "quizQuestions (ui ?c) = [example_question]" and a: "answers (ui ?c) = [Some 1]"
    by code_simp+
  have old: "map_option s_score (submissionDocs (db ?c) (''r1'', ''q1'', ''u1'')) = Some (Num 100)"
    by code_simp
  have ne: "(''r1'', ''q1-b'', ''u1'') \<noteq> (quiz_roomId (itemOne alice), quiz_id (itemOne alice), user_id alice)"
    by code_simp
  note t = submit_is_unconditional_set [OF h1 h2 h3, of 61000]
  from t have new: "map_option s_score
        (submissionDocs (db (handleSubmitQuiz WritesOk 61000 (ui ?c) ?c))
           (quiz_roomId (itemOne alice), quiz_id (itemOne alice), user_id alice))
       = Some (calculateScore [example_question] [Some 1])"
    by (simp add: q a)
  from t ne have other: "submissionDocs (db (handleSubmitQuiz WritesOk 61000 (ui ?c) ?c))
        (''r1'', ''q1-b'', ''u1'') = submissionDocs (db ?c) (''r1'', ''q1-b'', ''u1'')"
    by blast
  from h1 h2 h3 old new other show ?thesis by blast
qed

text \<open>
  C9. When a write of the submit operation throws, the session state of the component is
  what it was: the answers, the selected quiz and the questions are kept, and so is the
  countdown's interval. Submitting again then stores the submission with those answers.
\<close>

theorem failed_submit_keeps_session:
  assumes "io \<noteq> WritesOk"
  shows "ui (handleSubmitQuiz io now cl c) = ui c
     \<and> interval (handleSubmitQuiz io now cl c) = interval c
     \<and> (selectedQuiz (ui c) = Some quiz \<and> userProfile c = Some me \<longrightarrow>
          submissionDocs (db (submitClick WritesOk later (handleSubmitQuiz io now cl c)))
            (quiz_roomId quiz, quiz_id quiz, user_id me)
          = Some \<lparr>s_studentId = user_id me, s_answers = answers (ui c),
                  s_score = calculateScore (quizQuestions (ui c)) (answers (ui c)),
                  s_analysis = getAnalysis (calculateScore (quizQuestions (ui c)) (answers (ui c))),
                  s_submittedAt = later\<rparr>)"
proof -
  let ?c' = "handleSubmitQuiz io now cl c"
  have u: "ui ?c' = ui c" and i: "interval ?c' = interval c" and p: "userProfile ?c' = userProfile c"
    using assms by (cases io; simp add: handleSubmitQuiz_def Let_def split: option.splits)+
  have "submissionDocs (db (submitClick WritesOk later ?c'))
            (quiz_roomId quiz, quiz_id quiz, user_id me)
          = Some \<lparr>s_studentId = user_id me, s_answers = answers (ui c),
                  s_score = calculateScore (quizQuestions (ui c)) (answers (ui c)),
                  s_analysis = getAnalysis (calculateScore (quizQuestions (ui c)) (answers (ui c))),
                  s_submittedAt = later\<rparr>"
    if "selectedQuiz (ui c) = Some quiz" and "userProfile c = Some me"
    using that u p by (simp add: submitClick_def handleSubmitQuiz_def [of WritesOk] Let_def render_def)
  with u i show ?thesis by blast
qed


theorem failed_submit_keeps_session_witness:
  "SubmissionWriteFails \<noteq> WritesOk
   \<and> selectedQuiz (ui (handleAnswerSelect 0 started)) = Some (itemOne alice)
   \<and> userProfile (handleAnswerSelect 0 started) = Some alice
   \<and> ui (handleSubmitQuiz SubmissionWriteFails 60000 (ui (handleAnswerSelect 0 started))
            (handleAnswerSelect 0 started))
       = ui (handleAnswerSelect 0 started)
   \<and> answers (ui (handleAnswerSelect 0 started)) = [Some 0]
   \<and> map_option s_answers
        (submissionDocs
           (db (submitClick WritesOk 61000
                  (handleSubmitQuiz SubmissionWriteFails 60000 (ui (handleAnswerSelect 0 started))
                     (handleAnswerSelect 0 started))))
           (quiz_roomId (itemOne alice), quiz_id (itemOne alice), user_id alice))
       = Some [Some 0]"
proof -
  let ?c = "handleAnswerSelect 0 started"
  have h: "SubmissionWriteFails \<noteq> WritesOk" by simp
  have h1: "selectedQuiz (ui ?c) = Some (itemOne alice)" by code_simp
  have h2: "userProfile ?c = Some alice" by code_simp
  have a: "answers (ui ?c) = [Some 0]" by code_simp
  note t = failed_submit_keeps_session [OF h, of 60000 "ui ?c" ?c "itemOne alice" alice 61000]
  from t have u: "ui (handleSubmitQuiz SubmissionWriteFails 60000 (ui ?c) ?c) = ui ?c"
    by blast
  from t h1 h2 have "map_option s_answers
        (submissionDocs
           (db (submitClick WritesOk 61000 (handleSubmitQuiz SubmissionWriteFails 60000 (ui ?c) ?c)))
           (quiz_roomId (itemOne alice), quiz_id (itemOne alice), user_id alice))
       = Some (answers (ui ?c))"
    by simp
  then have r: "map_option s_answers
        (submissionDocs
           (db (submitClick WritesOk 61000 (handleSubmitQuiz SubmissionWriteFails 60000 (ui ?c) ?c)))
           (quiz_roomId (itemOne alice), quiz_id (itemOne alice), user_id alice))
       = Some [Some 0]"
    by (simp only: a)
  from h h1 h2 u a r show ?thesis by blast
qed

subsection \<open>Leaderboard documents\<close>

lemma map_fst_setDoc:
  "map fst (setDoc i v ds) = (if i \<in> fst ` set ds then map fst ds else map fst ds @ [i])"
  by (induction ds) auto

lemma distinct_setDoc: "distinct (map fst ds) \<Longrightarrow> distinct (map fst (setDoc i v ds))"
  by (simp add: map_fst_setDoc)

lemma ids_setDoc: "fst ` set (setDoc i v ds) = insert i (fst ` set ds)"
proof -
  have "set (map fst (setDoc i v ds)) = insert i (set (map fst ds))"
    unfolding map_fst_setDoc by auto
  then show ?thesis by simp
qed

lemma filter_setDoc:
  assumes "distinct (map fst ds)" and "P i" and "\<forall>d \<in> set ds. P (fst d) \<longrightarrow> fst d = i"
  shows "filter (\<lambda>d. P (fst d)) (setDoc i v ds) = [(i, v)]"
  using assms
proof (induction ds)
  case Nil
  then show ?case by simp
next
  case (Cons d ds)
  show ?case
  proof (cases "fst d = i")
    case True
    have "\<forall>e \<in> set ds. \<not> P (fst e)"
      using Cons.prems True by (metis distinct.simps(2) image_eqI list.set_intros(2) list.simps(9) set_map)
    then have "filter (\<lambda>d. P (fst d)) ds = []" by (simp add: filter_empty_conv)
    with True Cons.prems(2) show ?thesis by simp
  next
    case False
    then have "\<not> P (fst d)" using Cons.prems(3) by auto
    with False Cons show ?thesis by simp
  qed
qed

text \<open>Among identifiers of one length, to start with an identifier is to be it.\<close>

lemma startsWith_same_length: "length s = length p \<Longrightarrow> startsWith s p \<longleftrightarrow> s = p"
  by (simp add: startsWith_def)

lemma filter_key_at_most_one:
  "distinct (map fst ds) \<Longrightarrow> length (filter (\<lambda>d. fst d = q) ds) \<le> 1"
proof (induction ds)
  case Nil
  then show ?case by simp
next
  case (Cons d ds)
  show ?case
  proof (cases "fst d = q")
    case True
    have "fst d \<notin> fst ` set ds" using Cons.prems by simp
    with True have "\<forall>e \<in> set ds. fst e \<noteq> q" by (auto intro: rev_image_eqI)
    then have "filter (\<lambda>d. fst d = q) ds = []" by (simp add: filter_empty_conv)
    with True show ?thesis by simp
  next
    case False
    with Cons show ?thesis by simp
  qed
qed

lemma length_leaderboardEntries:
  "length (leaderboardEntries q ds) = length (filter (\<lambda>d. startsWith (fst d) q) ds)"
  by (simp add: leaderboardEntries_def rankEntries_def quizEntries_def length_sortBy)

lemma read_at_most_one:
  assumes "distinct (map fst ds)" and "\<forall>d \<in> set ds. length (fst d) = length q"
  shows "length (leaderboardEntries q ds) \<le> 1"
proof -
  have "filter (\<lambda>d. startsWith (fst d) q) ds = filter (\<lambda>d. fst d = q) ds"
    using assms(2) by (intro filter_cong) (simp_all add: startsWith_same_length)
  then show ?thesis
    using filter_key_at_most_one [OF assms(1), of q] by (simp add: length_leaderboardEntries)
qed

text \<open>
  C10. The leaderboard documents of a room have distinct identifiers, the identifiers of
  its quizzes, all of one length. A successful submit writes the leaderboard document at
  the path given by room and quiz alone, whoever the student is: afterwards the
  identifiers are still distinct and of that length, exactly one document has the quiz's
  identifier, and it is the submitting student's, whoever wrote the previous one. The
  read for that quiz yields exactly this one entry, with rank 1, and the read for any
  quiz yields at most one entry.
\<close>

theorem leaderboard_single_document:
  assumes "selectedQuiz cl = Some quiz" and "userProfile c = Some me"
    and "distinct (map fst (leaderboardDocs (db c) (quiz_roomId quiz)))"
    and "\<forall>d \<in> set (leaderboardDocs (db c) (quiz_roomId quiz)).
           length (fst d) = length (quiz_id quiz)"
  shows "distinct (map fst (leaderboardDocs (db (handleSubmitQuiz WritesOk now cl c)) (quiz_roomId quiz)))
     \<and> (\<forall>d \<in> set (leaderboardDocs (db (handleSubmitQuiz WritesOk now cl c)) (quiz_roomId quiz)).
           length (fst d) = length (quiz_id quiz))
     \<and> filter (\<lambda>d. fst d = quiz_id quiz)
          (leaderboardDocs (db (handleSubmitQuiz WritesOk now cl c)) (quiz_roomId quiz))
         = [(quiz_id quiz,
             \<lparr>l_studentId = user_id me, l_studentName = user_name me,
              l_score = calculateScore (quizQuestions cl) (answers cl), l_submittedAt = now\<rparr>)]
     \<and> leaderboardEntries (quiz_id quiz)
          (leaderboardDocs (db (handleSubmitQuiz WritesOk now cl c)) (quiz_roomId quiz))
         = [\<lparr>e_studentId = user_id me, e_studentName = user_name me,
             e_score = calculateScore (quizQuestions cl) (answers cl),
             e_submittedAt = now, e_rank = 1\<rparr>]
     \<and> (\<forall>q. length q = length (quiz_id quiz) \<longrightarrow>
           length (leaderboardEntries q
             (leaderboardDocs (db (handleSubmitQuiz WritesOk now cl c)) (quiz_roomId quiz))) \<le> 1)"
proof -
  let ?mine = "\<lparr>l_studentId = user_id me, l_studentName = user_name me,
              l_score = calculateScore (quizQuestions cl) (answers cl), l_submittedAt = now\<rparr>"
  let ?old = "leaderboardDocs (db c) (quiz_roomId quiz)"
  let ?new = "setDoc (quiz_id quiz) ?mine ?old"
  have new: "leaderboardDocs (db (handleSubmitQuiz WritesOk now cl c)) (quiz_roomId quiz) = ?new"
    using assms(1,2) by (simp add: handleSubmitQuiz_def Let_def render_def)
  have d: "distinct (map fst ?new)"
    using assms(3) by (rule distinct_setDoc)
  have l: "\<forall>d \<in> set ?new. length (fst d) = length (quiz_id quiz)"
  proof
    fix e assume "e \<in> set ?new"
    then have "fst e \<in> fst ` set ?new" by (rule imageI)
    then have "fst e = quiz_id quiz \<or> fst e \<in> fst ` set ?old" by (simp add: ids_setDoc)
    then show "length (fst e) = length (quiz_id quiz)" using assms(4) by auto
  qed
  have f: "filter (\<lambda>d. fst d = quiz_id quiz) ?new = [(quiz_id quiz, ?mine)]"
    using assms(3) by (intro filter_setDoc) simp_all
  have "filter (\<lambda>d. startsWith (fst d) (quiz_id quiz)) ?new = [(quiz_id quiz, ?mine)]"
    using assms(3,4) by (intro filter_setDoc) (simp_all add: startsWith_same_length)
  then have r: "leaderboardEntries (quiz_id quiz) ?new
      = [\<lparr>e_studentId = user_id me, e_studentName = user_name me,
          e_score = calculateScore (quizQuestions cl) (answers cl),
          e_submittedAt = now, e_rank = 1\<rparr>]"
    by (simp add: leaderboardEntries_def quizEntries_def rankEntries_def withRank_def)
  have a: "length (leaderboardEntries q ?new) \<le> 1" if "length q = length (quiz_id quiz)" for q
    using d l that by (intro read_at_most_one) simp_all
  from d l f r a show ?thesis unfolding new by blast
qed

text \<open>Bob starts quiz \<open>q1\<close>, which Alice has submitted, on the store she left, and submits.\<close>

theorem leaderboard_single_document_witness:
  "selectedQuiz (ui (startQuiz (itemOne bob) (Some [example_question]) (mounted bob (db aliceDone))))
     = Some (itemOne bob)
   \<and> userProfile (startQuiz (itemOne bob) (Some [example_question]) (mounted bob (db aliceDone)))
     = Some bob
   \<and> map (\<lambda>d. (fst d, l_studentId (snd d))) (leaderboardDocs (db aliceDone) ''r1'')
     = [(''q1'', ''u1'')]
   \<and> map (\<lambda>d. (fst d, l_studentId (snd d)))
        (filter (\<lambda>d. fst d = quiz_id (itemOne bob))
          (leaderboardDocs
            (db (handleSubmitQuiz WritesOk 70000
                  (ui (startQuiz (itemOne bob) (Some [example_question]) (mounted bob (db aliceDone))))
                  (startQuiz (itemOne bob) (Some [example_question]) (mounted bob (db aliceDone)))))
            (quiz_roomId (itemOne bob))))
     = [(''q1'', ''u2'')]
   \<and> map (\<lambda>e. (e_studentId e, e_rank e))
        (leaderboardEntries (quiz_id (itemOne bob))
          (leaderboardDocs
            (db (handleSubmitQuiz WritesOk 70000
                  (ui (startQuiz (itemOne bob) (Some [example_question]) (mounted bob (db aliceDone))))
                  (startQuiz (itemOne bob) (Some [example_question]) (mounted bob (db aliceDone)))))
            (quiz_roomId (itemOne bob))))
     = [(''u2'', 1)]
   \<and> length (leaderboardEntries ''q2''
          (leaderboardDocs
            (db (handleSubmitQuiz WritesOk 70000
                  (ui (startQuiz (itemOne bob) (Some [example_question]) (mounted bob (db aliceDone))))
                  (startQuiz (itemOne bob) (Some [example_question]) (mounted bob (db aliceDone)))))
            (quiz_roomId (itemOne bob)))) \<le> 1"
proof -
  let ?c = "startQuiz (itemOne bob) (Some [example_question]) (mounted bob (db aliceDone))"
  have h1: "selectedQuiz (ui ?c) = Some (itemOne bob)" by code_simp
  have h2: "userProfile ?c = Some bob" by code_simp
  have docs: "leaderboardDocs (db ?c) (quiz_roomId (itemOne bob))
      = [(''q1'', \<lparr>l_studentId = ''u1'', l_studentName = ''Alice'', l_score = Num 100,
                   l_submittedAt = 60000\<rparr>)]"
    by code_simp
  have old: "map (\<lambda>d. (fst d, l_studentId (snd d))) (leaderboardDocs (db aliceDone) ''r1'')
     = [(''q1'', ''u1'')]"
    by code_simp
  have qid: "quiz_id (itemOne bob) = ''q1''" and uid: "user_id bob = ''u2''"
    by code_simp+
  have h3: "distinct (map fst (leaderboardDocs (db ?c) (quiz_roomId (itemOne bob))))"
    by (simp add: docs)
  have h4: "\<forall>d \<in> set (leaderboardDocs (db ?c) (quiz_roomId (itemOne bob))).
      length (fst d) = length (quiz_id (itemOne bob))"
    by (simp add: docs qid)
  have h5: "length ''q2'' = length (quiz_id (itemOne bob))"
    by (simp add: qid)
  note t = leaderboard_single_document [OF h1 h2 h3 h4, of 70000]
  from t have f: "map (\<lambda>d. (fst d, l_studentId (snd d)))
        (filter (\<lambda>d. fst d = quiz_id (itemOne bob))
          (leaderboardDocs (db (handleSubmitQuiz WritesOk 70000 (ui ?c) ?c))
            (quiz_roomId (itemOne bob))))
     = [(''q1'', ''u2'')]"
    by (simp add: qid uid)
  from t have "leaderboardEntries (quiz_id (itemOne bob))
          (leaderboardDocs (db (handleSubmitQuiz WritesOk 70000 (ui ?c) ?c))
            (quiz_roomId (itemOne bob)))
     = [\<lparr>e_studentId = user_id bob, e_studentName = user_name bob,
         e_score = calculateScore (quizQuestions (ui ?c)) (answers (ui ?c)),
         e_submittedAt = 70000, e_rank = 1\<rparr>]"
    by blast
  then have r: "map (\<lambda>e. (e_studentId e, e_rank e))
        (leaderboardEntries (quiz_id (itemOne bob))
          (leaderboardDocs (db (handleSubmitQuiz WritesOk 70000 (ui ?c) ?c))
            (quiz_roomId (itemOne bob))))
     = [(''u2'', 1)]"
    by (simp add: uid)
  from t h5 have a: "length (leaderboardEntries ''q2''
          (leaderboardDocs (db (handleSubmitQuiz WritesOk 70000 (ui ?c) ?c))
            (quiz_roomId (itemOne bob)))) \<le> 1"
    by blast
  from h1 h2 old f r a show ?thesis by blast
qed

subsection \<open>Starting a session\<close>

text \<open>
  C7 (as the claim states it, refuted). Alice has started and submitted quiz \<open>q1\<close>; her
  submission is stored. \<^verbatim>\<open>startQuiz\<close> for the same quiz then creates a session again,
  and it does so as well once the quiz has ended.
\<close>

theorem start_unguarded_counterexample:
  "submissionDocs (db aliceDone) (''r1'', ''q1'', ''u1'') \<noteq> None
   \<and> \<not> quizStarted (ui aliceDone)
   \<and> quizStarted (ui (startQuiz (itemOne alice) (Some [example_question]) aliceDone))
   \<and> selectedQuiz (ui (startQuiz (itemOne alice) (Some [example_question]) aliceDone))
       = Some (itemOne alice)
   \<and> answers (ui (startQuiz (itemOne alice) (Some [example_question]) aliceDone))
       = [Some (- 1)]
   \<and> gate 200000 (quiz_startDate (itemOne alice)) (quiz_endDate (itemOne alice)) = Ended
   \<and> quizStarted (ui (startQuiz (itemOne alice) (Some [example_question])
        (fetchQuizzes True 200000 aliceDone)))"
  by code_simp

lemma quizView_fields:
  "quiz_roomId (quizView now st me room qd) = room"
  "quiz_id (quizView now st me room qd) = fst qd"
  "quiz_submitted (quizView now st me room qd) = (submissionDocs st (room, fst qd, user_id me) \<noteq> None)"
  "quiz_status (quizView now st me room qd) = gate now (q_startDate (snd qd)) (q_endDate (snd qd))"
  by (simp_all add: quizView_def Let_def)

text \<open>
  C7 (amended). \<^verbatim>\<open>startQuiz\<close> makes no eligibility check and never fails with an
  ineligibility error: whenever the questions load it creates the session. Eligibility is
  enforced by the quiz list, which offers the Start button only for an item whose cached
  status is active and whose cached submitted flag is false. After a session is submitted
  and the list is fetched again, the item of that quiz is marked submitted and its Start
  button is not offered.
\<close>

theorem start_guard_in_list:
  "ui (startQuiz quiz (Some questions) c)
     = \<lparr>selectedQuiz = Some quiz, quizQuestions = questions, currentQuestionIndex = 0,
        answers = replicate (length questions) (Some (- 1)), quizStarted = True,
        timeLeft = quiz_durationMinutes quiz * 60\<rparr>
   \<and> (startOffered quiz \<longleftrightarrow> quiz_status quiz = Active \<and> \<not> quiz_submitted quiz)
   \<and> (selectedQuiz (ui c) = Some quiz \<and> userProfile c = Some me \<and> rooms me \<noteq> []
        \<longrightarrow> (\<forall>item \<in> set (quizzes (fetchQuizzes True later (submitClick WritesOk now c))).
               quiz_roomId item = quiz_roomId quiz \<and> quiz_id item = quiz_id quiz
               \<longrightarrow> quiz_submitted item \<and> \<not> startOffered item))"
proof -
  have s: "ui (startQuiz quiz (Some questions) c)
     = \<lparr>selectedQuiz = Some quiz, quizQuestions = questions, currentQuestionIndex = 0,
        answers = replicate (length questions) (Some (- 1)), quizStarted = True,
        timeLeft = quiz_durationMinutes quiz * 60\<rparr>"
    by (simp add: startQuiz_def render_def)
  have o: "startOffered quiz \<longleftrightarrow> quiz_status quiz = Active \<and> \<not> quiz_submitted quiz"
    by (simp add: startOffered_def)
  have g: "quiz_submitted item \<and> \<not> startOffered item"
    if h: "selectedQuiz (ui c) = Some quiz" "userProfile c = Some me" "rooms me \<noteq> []"
      and i: "item \<in> set (quizzes (fetchQuizzes True later (submitClick WritesOk now c)))"
      and e: "quiz_roomId item = quiz_roomId quiz" "quiz_id item = quiz_id quiz"
    for item
  proof -
    let ?c' = "submitClick WritesOk now c"
    have p: "userProfile ?c' = Some me"
      using h by (simp add: submitClick_def handleSubmitQuiz_def Let_def render_def)
    have sub: "submissionDocs (db ?c') (quiz_roomId quiz, quiz_id quiz, user_id me) \<noteq> None"
      using h by (simp add: submitClick_def handleSubmitQuiz_def Let_def render_def)
    from i p h(3) obtain room qd where it: "item = quizView later (db ?c') me room qd"
      by (auto simp: fetchQuizzes_def)
    from it e have "room = quiz_roomId quiz" "fst qd = quiz_id quiz"
      by (simp_all add: quizView_fields)
    with it sub have "quiz_submitted item" by (simp add: quizView_fields)
    then show ?thesis by (simp add: startOffered_def)
  qed
  from s o g show ?thesis by blast
qed

theorem start_guard_in_list_witness:
  "selectedQuiz (ui (handleAnswerSelect 0 started)) = Some (itemOne alice)
   \<and> userProfile (handleAnswerSelect 0 started) = Some alice
   \<and> rooms alice \<noteq> []
   \<and> startOffered (itemOne alice)
   \<and> map quiz_id (quizzes (fetchQuizzes True 61000
         (submitClick WritesOk 60000 (handleAnswerSelect 0 started)))) = [''q1'', ''q1-b'']
   \<and> \<not> startOffered (hd (quizzes (fetchQuizzes True 61000
         (submitClick WritesOk 60000 (handleAnswerSelect 0 started)))))"
proof -
  let ?c = "handleAnswerSelect 0 started"
  let ?l = "quizzes (fetchQuizzes True 61000 (submitClick WritesOk 60000 ?c))"
  have h1: "selectedQuiz (ui ?c) = Some (itemOne alice)" by code_simp
  have h2: "userProfile ?c = Some alice" by code_simp
  have h3: "rooms alice \<noteq> []" by code_simp
  have o: "startOffered (itemOne alice)" by code_simp
  have ids: "map quiz_id ?l = [''q1'', ''q1-b'']" by code_simp
  then have ne: "?l \<noteq> []" by auto
  then have m: "hd ?l \<in> set ?l" by simp
  have q: "quiz_roomId (hd ?l) = quiz_roomId (itemOne alice)"
    "quiz_id (hd ?l) = quiz_id (itemOne alice)"
    by code_simp+
  from start_guard_in_list [of "itemOne alice" "[]" ?c alice 61000 60000] h1 h2 h3 m q
  have "\<not> startOffered (hd ?l)" by blast
  with h1 h2 h3 o ids show ?thesis by blast
qed

subsection \<open>The countdown\<close>

lemma tick_counts_down:
  assumes "quizStarted (ui c)" and "interval c = Some (ui c)" and "int k < timeLeft (ui c)"
  shows "(tick io now ^^ k) c =
     c\<lparr>ui := (ui c)\<lparr>timeLeft := timeLeft (ui c) - int k\<rparr>,
       interval := Some ((ui c)\<lparr>timeLeft := timeLeft (ui c) - int k\<rparr>)\<rparr>"
  using assms
proof (induction k)
  case 0
  then show ?case by simp
next
  case (Suc k)
  let ?s = "(ui c)\<lparr>timeLeft := timeLeft (ui c) - int k\<rparr>"
  let ?c = "c\<lparr>ui := ?s, interval := Some ?s\<rparr>"
  have ih: "(tick io now ^^ k) c = ?c" using Suc by simp
  have big: "\<not> timeLeft ?s \<le> 1" using Suc.prems(3) by simp
  have "tick io now ?c = render (?s\<lparr>timeLeft := timeLeft ?s - 1\<rparr>) ?c"
    using big by (simp add: tick_def)
  also have "\<dots> = c\<lparr>ui := (ui c)\<lparr>timeLeft := timeLeft (ui c) - int (Suc k)\<rparr>,
       interval := Some ((ui c)\<lparr>timeLeft := timeLeft (ui c) - int (Suc k)\<rparr>)\<rparr>"
    using Suc.prems by (simp add: render_def countdownEffect_def algebra_simps)
  finally show ?case by (simp add: ih)
qed


text \<open>
  Selecting an answer renders again without running the effect again, so the interval
  keeps the state it closed over. When that state has the answers,
  the questions and the quiz of the latest render, the firing at \<open>timeLeft \<le> 1\<close> writes
  what a click on Submit would write. A slot holding \<open>-1\<close> is not counted as correct when
  the correct options are not negative, so an untouched session scores 0.
\<close>

lemma select_keeps_interval: "interval (handleAnswerSelect answerIndex c) = interval c"
  by (simp add: handleAnswerSelect_def render_def countdownEffect_def)

lemma timeout_like_manual_submit:
  assumes "interval c = Some cl" and "timeLeft (ui c) \<le> 1"
    and "selectedQuiz cl = selectedQuiz (ui c)" and "quizQuestions cl = quizQuestions (ui c)"
    and "answers cl = answers (ui c)"
  shows "db (tick io now c) = db (submitClick io now c)"
  using assms
  by (simp add: tick_def submitClick_def handleSubmitQuiz_def Let_def render_def
      split: option.splits)

lemma unset_slots_count_zero:
  assumes "\<forall>q \<in> set qs. 0 \<le> correctOption q"
  shows "spec_correctCount qs (replicate (length qs) (Some (- 1))) = 0"
proof -
  have "\<not> (case p of (q, a) \<Rightarrow> a = Some (correctOption q))"
    if "p \<in> set (zip qs (replicate (length qs) (Some (- 1))))" for p
  proof -
    obtain q a where p: "p = (q, a)" by (cases p)
    from that p have "q \<in> set qs" and "a = Some (- 1)"
      by (auto dest: set_zip_leftD set_zip_rightD)
    with assms p show ?thesis by auto
  qed
  then show ?thesis by (simp add: spec_correctCount_def filter_empty_conv)
qed

lemma untouched_session_scores_zero:
  assumes "qs \<noteq> []" and "\<forall>q \<in> set qs. 0 \<le> correctOption q"
  shows "calculateScore qs (replicate (length qs) (Some (- 1))) = Num 0"
proof -
  have "\<lfloor>1 / 2 :: rat\<rfloor> = 0" by (rule floor_unique) simp_all
  then show ?thesis
    using calculateScore_eq [OF assms(1)] unset_slots_count_zero [OF assms(2)]
    by (simp add: fl_zero Math_round_def)
qed

text \<open>
  C6. The code at a failing input. Alice starts quiz \<open>q1\<close> (one question, correct option
  0, one minute). After 59 firings one second is left and her slot is unset. She selects
  option 0 and the interval fires for the last time: the submission stored by the timeout
  has the slot still unset and the score 0, where a click on Submit at that moment stores
  her answer and the score 100. The interval calls the \<^verbatim>\<open>handleSubmitQuiz\<close> of the
  render in which the effect last ran, and selecting an answer does not run the effect
  again.
\<close>

theorem timeout_submits_stale_answers:
  "timeLeft (ui lastSecond) = 1
   \<and> answers (ui lastSecond) = [Some (- 1)]
   \<and> answers (ui (handleAnswerSelect 0 lastSecond)) = [Some 0]
   \<and> map correctOption (quizQuestions (ui (handleAnswerSelect 0 lastSecond))) = [0]
   \<and> map_option (\<lambda>s. (s_answers s, s_score s))
        (submissionDocs (db (tick WritesOk 59900 (handleAnswerSelect 0 lastSecond)))
           (''r1'', ''q1'', ''u1''))
       = Some ([Some (- 1)], Num 0)
   \<and> map_option (\<lambda>s. (s_answers s, s_score s))
        (submissionDocs (db (submitClick WritesOk 59900 (handleAnswerSelect 0 lastSecond)))
           (''r1'', ''q1'', ''u1''))
       = Some ([Some 0], Num 100)"
proof -
  have s1: "quizStarted (ui started)" and s2: "interval started = Some (ui started)"
    and s3: "int 59 < timeLeft (ui started)"
    by code_simp+
  have ls: "lastSecond =
     started\<lparr>ui := (ui started)\<lparr>timeLeft := timeLeft (ui started) - int 59\<rparr>,
       interval := Some ((ui started)\<lparr>timeLeft := timeLeft (ui started) - int 59\<rparr>)\<rparr>"
    unfolding lastSecond_def by (rule tick_counts_down [OF s1 s2 s3])
  show ?thesis unfolding ls by code_simp
qed


subsection \<open>Documents\<close>

text \<open>
  C8. A document linked to a quiz of the room is unlocked exactly when the current time
  exceeds that quiz's end: one second (1000 ms) after the end it is unlocked, one second
  before the end it is locked. A document with no linked quiz is unlocked.
\<close>

theorem document_unlock_rule:
  "(d_quizLinked d = Some l \<and> l \<noteq> [] \<and> find (\<lambda>quiz. fst quiz = l) quizSnapshot = Some (i, q)
      \<longrightarrow> (unlocked now quizSnapshot d \<longleftrightarrow> q_endDate q < now)
        \<and> (q_endDate q = now - 1000 \<longrightarrow> unlocked now quizSnapshot d)
        \<and> (q_endDate q = now + 1000 \<longrightarrow> \<not> unlocked now quizSnapshot d))
   \<and> (d_quizLinked d = None \<longrightarrow> unlocked now quizSnapshot d)"
  by (auto simp: unlocked_def documentUnlock_def)

theorem document_unlock_rule_witness:
  "unlocked 5000 [(''q1'', \<lparr>q_title = ''t'', q_startDate = 0, q_endDate = 4000, q_durationMinutes = 1\<rparr>)]
     \<lparr>d_title = ''doc'', d_roomId = ''r'', d_quizLinked = Some ''q1''\<rparr>
   \<and> \<not> unlocked 5000 [(''q1'', \<lparr>q_title = ''t'', q_startDate = 0, q_endDate = 6000, q_durationMinutes = 1\<rparr>)]
     \<lparr>d_title = ''doc'', d_roomId = ''r'', d_quizLinked = Some ''q1''\<rparr>
   \<and> unlocked 5000 [] \<lparr>d_title = ''doc'', d_roomId = ''r'', d_quizLinked = None\<rparr>"
  using document_unlock_rule [of "\<lparr>d_title = ''doc'', d_roomId = ''r'', d_quizLinked = Some ''q1''\<rparr>"
      "''q1''" "[(''q1'', \<lparr>q_title = ''t'', q_startDate = 0, q_endDate = 4000, q_durationMinutes = 1\<rparr>)]"
      "''q1''" "\<lparr>q_title = ''t'', q_startDate = 0, q_endDate = 4000, q_durationMinutes = 1\<rparr>" 5000]
    document_unlock_rule [of "\<lparr>d_title = ''doc'', d_roomId = ''r'', d_quizLinked = Some ''q1''\<rparr>"
      "''q1''" "[(''q1'', \<lparr>q_title = ''t'', q_startDate = 0, q_endDate = 6000, q_durationMinutes = 1\<rparr>)]"
      "''q1''" "\<lparr>q_title = ''t'', q_startDate = 0, q_endDate = 6000, q_durationMinutes = 1\<rparr>" 5000]
    document_unlock_rule [of "\<lparr>d_title = ''doc'', d_roomId = ''r'', d_quizLinked = None\<rparr>"
      "''x''" "[]" "''x''" "\<lparr>q_title = ''t'', q_startDate = 0, q_endDate = 6000, q_durationMinutes = 1\<rparr>" 5000]
  by simp

end
